theory Spec2Isabelle
  imports Complex_Main
begin

section \<open>The analytics logger: data model\<close>

text \<open>
  The development follows \<^verbatim>\<open>logger/analytics/analyticslogger.go\<close>. A Go byte slice
  is a list of 8-bit characters, Go's \<^verbatim>\<open>int\<close> and \<^verbatim>\<open>int64\<close> are mathematical
  integers (the only arithmetic is a sum of lengths of slices held in memory and the
  addition of a duration to a clock reading, neither of which can reach \<open>2^63\<close>), a
  \<^verbatim>\<open>time.Time\<close> is the number of nanoseconds since a fixed instant and a
  \<^verbatim>\<open>time.Duration\<close> a number of nanoseconds.
\<close>

type_synonym bytes = string
type_synonym time = int
type_synonym duration = int

text \<open>
  A value of Go's \<^verbatim>\<open>error\<close> interface other than \<^verbatim>\<open>nil\<close>, by what the code observes
  of it: either its dynamic type implements \<^verbatim>\<open>awserr.Error\<close>, and then it has the code
  that \<^verbatim>\<open>Code()\<close> returns and the text that \<^verbatim>\<open>Error()\<close> returns (the SDK builds it
  out of the code, the message, the original error and, for a request failure, the
  status and the request id), or it does not, and then it has its text only.
  \<^verbatim>\<open>nil\<close> is \<open>None\<close> of \<open>go_error option\<close>.
\<close>

datatype go_error = AwsError (Code: string) (ErrorText: string) | PlainError string

text \<open>The method \<^verbatim>\<open>Error()\<close>, which \<^verbatim>\<open>%v\<close> prints.\<close>

fun ErrorString :: "go_error \<Rightarrow> string" where
  "ErrorString (AwsError c t) = t"
| "ErrorString (PlainError t) = t"

text \<open>\<^verbatim>\<open>errors.New\<close>, and \<^verbatim>\<open>fmt.Errorf("PutRecords: %v", err)\<close>.\<close>

definition errors_New :: "string \<Rightarrow> go_error" where
  "errors_New m = PlainError m"

definition Errorf_PutRecords :: "go_error \<Rightarrow> go_error" where
  "Errorf_PutRecords err = PlainError (''PutRecords: '' @ ErrorString err)"

text \<open>\<^verbatim>\<open>firehose.Record\<close>: the payload of one record.\<close>

record Record =
  Data :: bytes

text \<open>
  The fields of \<^verbatim>\<open>Logger\<close> that the code of this file reads or writes. The embedded
  \<^verbatim>\<open>KayveeLogger\<close> and the mutex are left out: every function below is the body of
  one critical section, taken as a whole. The Firehose client is a value of a type
  \<open>'api\<close> that the logger only passes on.
\<close>

record 'api Logger =
  fhStream :: string
  fhAPI :: 'api
  batch :: "Record list"
  batchBytes :: int
  maxBatchRecords :: int
  maxBatchBytes :: int

definition ignoredFields :: "string list" where
  "ignoredFields = [''level'', ''source'', ''title'', ''deploy_env'', ''wf_id'']"

definition Minute :: duration where
  "Minute = 60 * 1000000000"

definition Millisecond :: duration where
  "Millisecond = 1000000"

definition timeoutForSendingBatches :: duration where
  "timeoutForSendingBatches = Minute"

definition firehosePutRecordBatchMaxRecords :: int where
  "firehosePutRecordBatchMaxRecords = 500"

definition firehosePutRecordBatchMaxBytes :: int where
  "firehosePutRecordBatchMaxBytes = 4000000"

definition min_go :: "int \<Rightarrow> int \<Rightarrow> int" where
  "min_go a b = (if a < b then a else b)"

section \<open>New\<close>

record 'api Config =
  DBName :: string
  Environment :: string
  StreamName :: string
  Region :: string
  FirehosePutRecordBatchMaxRecords :: int
  FirehosePutRecordBatchMaxBytes :: int
  FirehoseAPI :: "'api option"

text \<open>
  \<^verbatim>\<open>New\<close>. The process environment (\<^verbatim>\<open>os.Getenv\<close>) and the constructor of the default
  client from a region (\<^verbatim>\<open>firehose.New(session.New(...))\<close>) are parameters. The batch
  starts as the nil slice and the byte counter as zero.
\<close>

definition New :: "(string \<Rightarrow> string) \<Rightarrow> (string \<Rightarrow> 'api) \<Rightarrow> 'api Config \<Rightarrow> go_error + 'api Logger" where
  "New getenv firehose_New c =
    (let env = Environment c; dbname = DBName c; streamName = StreamName c in
     if dbname \<noteq> '''' \<and> streamName \<noteq> '''' then
       Inl (errors_New ''cannot specify both DBName and StreamName in logger config'')
     else if dbname = '''' \<and> streamName = '''' then
       Inl (errors_New ''must specify either DBName or StreamName in logger config'')
     else
       let env1 = (if env = '''' then getenv ''_DEPLOY_ENV'' else env) in
       if env1 = '''' then
         Inl (errors_New ''env could not be set (either pass in explicit env, or set _DEPLOY_ENV)'')
       else
         let stream = (if dbname \<noteq> '''' then env1 @ ''--'' @ dbname else streamName);
             maxRecords = (let v = FirehosePutRecordBatchMaxRecords c in
                           if v \<noteq> 0 then min_go v firehosePutRecordBatchMaxRecords
                           else firehosePutRecordBatchMaxRecords);
             maxBytes = (let v = FirehosePutRecordBatchMaxBytes c in
                         if v \<noteq> 0 then min_go v firehosePutRecordBatchMaxBytes
                         else firehosePutRecordBatchMaxBytes)
         in case FirehoseAPI c of
              Some api \<Rightarrow>
                Inr \<lparr>fhStream = stream, fhAPI = api, batch = [], batchBytes = 0,
                     maxBatchRecords = maxRecords, maxBatchBytes = maxBytes\<rparr>
            | None \<Rightarrow>
                if Region c \<noteq> '''' then
                  Inr \<lparr>fhStream = stream, fhAPI = firehose_New (Region c), batch = [],
                       batchBytes = 0, maxBatchRecords = maxRecords, maxBatchBytes = maxBytes\<rparr>
                else Inl (errors_New ''must provide FirehoseAPI or Region''))"

section \<open>Write and Close\<close>

text \<open>
  The value of \<^verbatim>\<open>var m map[string]interface{}\<close>: the nil map (\<open>None\<close>, which
  \<^verbatim>\<open>json.Unmarshal\<close> leaves in place for the input \<^verbatim>\<open>null\<close>) or a map from keys to
  decoded values of some type \<open>'v\<close>. \<^verbatim>\<open>delete\<close> on the nil map does nothing.
\<close>

type_synonym 'v gomap = "(string \<rightharpoonup> 'v) option"

fun delete :: "string \<Rightarrow> 'v gomap \<Rightarrow> 'v gomap" where
  "delete f None = None"
| "delete f (Some m) = Some (m(f := None))"

text \<open>
  \<^verbatim>\<open>encoding/json\<close> is outside the repository: \<^verbatim>\<open>json.Unmarshal\<close> into the map and
  \<^verbatim>\<open>json.Marshal\<close> of the map are the two fields of a parameter.
\<close>

record 'v json =
  Unmarshal :: "bytes \<Rightarrow> go_error + 'v gomap"
  Marshal :: "'v gomap \<Rightarrow> go_error + bytes"

text \<open>
  What \<^verbatim>\<open>go sendBatch(batch, al.fhAPI, al.fhStream, time.Now().Add(...))\<close> starts: the
  arguments of the call, evaluated by the caller.
\<close>

record 'api task =
  task_batch :: "Record list"
  task_fhAPI :: 'api
  task_fhStream :: string
  task_timeout :: time

text \<open>
  \<^verbatim>\<open>int(0.9*float64(maxBatchBytes))\<close> in integers. The conversion truncates towards
  zero. For \<open>\<bar>m\<bar> < 2^49\<close> the computation in \<^verbatim>\<open>float64\<close> gives exactly this
  integer: \<open>m\<close> converts exactly, the constant is the double \<open>9/10 + 1/(5 * 2^53)\<close>, so
  the exact product is \<open>9m/10\<close> moved away from zero by \<open>\<bar>m\<bar>/(5 * 2^53) < 2^-6\<close>, the
  rounding moves it by at most \<open>2^-5\<close> more and never across an integer, since integers
  of this size are doubles themselves, while the fractional part of \<open>9\<bar>m\<bar>/10\<close> is a
  multiple of \<open>1/10\<close>. \<^verbatim>\<open>New\<close> stores no value above 4000000, and for every negative
  \<open>m\<close> both the code and this definition give a value that is at most zero.
\<close>

definition byteThreshold :: "int \<Rightarrow> int" where
  "byteThreshold m = (if 0 \<le> m then (9 * m) div 10 else - ((9 * (- m)) div 10))"

text \<open>
  The statements that \<^verbatim>\<open>Write\<close> and \<^verbatim>\<open>Close\<close> both run when they send: the pending
  batch is kept aside, the logger gets a fresh empty batch and a counter of zero, and a
  goroutine is started on the batch kept aside, with the deadline one minute from now.
\<close>

definition detach :: "time \<Rightarrow> 'api Logger \<Rightarrow> 'api Logger \<times> 'api task" where
  "detach now al =
     (al\<lparr>batch := [], batchBytes := 0\<rparr>,
      \<lparr>task_batch = batch al, task_fhAPI = fhAPI al, task_fhStream = fhStream al,
       task_timeout = now + timeoutForSendingBatches\<rparr>)"

text \<open>
  \<^verbatim>\<open>Write\<close>. \<open>now\<close> is what \<^verbatim>\<open>time.Now()\<close> returns if the batch is sent. The result
  is the pair that \<^verbatim>\<open>Write\<close> returns, the logger afterwards, and the goroutine started,
  if any.
\<close>

definition Write ::
  "'v json \<Rightarrow> time \<Rightarrow> 'api Logger \<Rightarrow> bytes \<Rightarrow> (int \<times> go_error option) \<times> 'api Logger \<times> 'api task option" where
  "Write js now al bs =
    (case Unmarshal js bs of
       Inl err \<Rightarrow> ((0, Some err), al, None)
     | Inr m \<Rightarrow>
        (let m1 = fold delete ignoredFields m in
         case Marshal js m1 of
           Inl err \<Rightarrow> ((0, Some err), al, None)
         | Inr bs1 \<Rightarrow>
            (let bs2 = bs1 @ [CHR 0x0A];
                 al1 = al\<lparr>batchBytes := batchBytes al + int (length bs2)\<rparr>;
                 al2 = al1\<lparr>batch := batch al1 @ [\<lparr>Data = bs2\<rparr>]\<rparr>;
                 shouldSendBatch =
                   (int (length (batch al2)) = maxBatchRecords al2
                    \<or> batchBytes al2 > byteThreshold (maxBatchBytes al2))
             in if shouldSendBatch then
                  (let (al3, t) = detach now al2 in ((int (length bs2), None), al3, Some t))
                else ((int (length bs2), None), al2, None))))"

text \<open>\<^verbatim>\<open>Close\<close>: the error returned (always nil), the logger afterwards, the goroutine started.\<close>

definition Close ::
  "time \<Rightarrow> 'api Logger \<Rightarrow> go_error option \<times> 'api Logger \<times> 'api task option" where
  "Close now al =
    (if length (batch al) > 0 then
       (let (al1, t) = detach now al in (None, al1, Some t))
     else (None, al, None))"

section \<open>The error classifier\<close>

datatype Action = Succeed | Fail | Retry

text \<open>\<^verbatim>\<open>RequestErrorClassifier.Classify\<close>.\<close>

fun Classify :: "go_error option \<Rightarrow> Action" where
  "Classify None = Succeed"
| "Classify (Some (AwsError c m)) = (if c = ''RequestError'' then Retry else Fail)"
| "Classify (Some (PlainError m)) = Fail"

section \<open>Delivery\<close>

text \<open>
  The parts of the Firehose request and response types that \<^verbatim>\<open>sendBatch\<close> touches.
  A field of pointer type is an option, \<open>None\<close> being the nil pointer.
\<close>

record PutRecordBatchResponseEntry =
  ErrorCode :: "string option"
  ErrorMessage :: "string option"
  RecordId :: "string option"

record PutRecordBatchOutput =
  FailedPutCount :: "int option"
  RequestResponses :: "PutRecordBatchResponseEntry option list"

record PutRecordBatchInput =
  DeliveryStreamName :: string
  Records :: "Record list"

text \<open>\<^verbatim>\<open>aws.Int64Value\<close> and \<^verbatim>\<open>aws.StringValue\<close>: the zero value for the nil pointer.\<close>

definition Int64Value :: "int option \<Rightarrow> int" where
  "Int64Value v = (case v of None \<Rightarrow> 0 | Some n \<Rightarrow> n)"

definition StringValue :: "string option \<Rightarrow> string" where
  "StringValue v = (case v of None \<Rightarrow> '''' | Some s \<Rightarrow> s)"

text \<open>
  What \<^verbatim>\<open>sendBatch\<close> runs against, over a state \<open>'w\<close> of the outside world: the
  clock (\<^verbatim>\<open>time.Now\<close>, which only reads the world), the sleep between two tries of the
  retrier, and \<^verbatim>\<open>fhAPI.PutRecordBatch\<close>, which returns a pointer and an error.
\<close>

record 'w env =
  Now :: "'w \<Rightarrow> time"
  Sleep :: "duration \<Rightarrow> 'w \<Rightarrow> 'w"
  PutRecordBatch ::
    "PutRecordBatchInput \<Rightarrow> 'w \<Rightarrow> (PutRecordBatchOutput option \<times> go_error option) \<times> 'w"

text \<open>
  One call of \<^verbatim>\<open>PutRecordBatch\<close> as an observer sees it: the request, the clock when
  it was made, and the clock at the loop test that opened the round it belongs to.
\<close>

record submission =
  round_started :: time
  submitted_at :: time
  submitted :: PutRecordBatchInput

text \<open>
  The state of one run of \<^verbatim>\<open>sendBatch\<close>: the world, the variable \<^verbatim>\<open>result\<close> that the
  closure assigns, and the log of the calls made so far.
\<close>

record 'w exec =
  world :: 'w
  result :: "PutRecordBatchOutput option"
  submissions :: "submission list"

datatype panic = NilDereference | IndexOutOfRange

datatype outcome = Returned "go_error option" | Panicked panic

text \<open>
  The retrier of \<^verbatim>\<open>github.com/eapache/go-resiliency\<close> (v1.7.0 in \<^verbatim>\<open>go.mod\<close>), which
  is outside the repository. \<^verbatim>\<open>ExponentialBackoff(n, d)\<close> is the list of \<open>n\<close>
  durations \<open>d, 2d, 4d, ...\<close>. By the documentation of \<^verbatim>\<open>retrier.New\<close>, the length of the
  backoff list is the number of times the action is retried and its entries are the
  waits before each retry. So \<^verbatim>\<open>Run\<close> calls the work function and classifies what it
  returns: on \<^verbatim>\<open>Succeed\<close> and \<^verbatim>\<open>Fail\<close> it returns that value; on \<^verbatim>\<open>Retry\<close> it returns
  it if every duration of the list has been used, and otherwise sleeps for the next one
  (there is no jitter unless it is set) and starts again. The list argument here is the
  part of the backoff list not yet used.
\<close>

fun ExponentialBackoff :: "nat \<Rightarrow> duration \<Rightarrow> duration list" where
  "ExponentialBackoff 0 next = []"
| "ExponentialBackoff (Suc n) next = next # ExponentialBackoff n (next * 2)"

fun Run ::
  "'w env \<Rightarrow> (go_error option \<Rightarrow> Action) \<Rightarrow> duration list \<Rightarrow>
   ('w exec \<Rightarrow> go_error option \<times> 'w exec) \<Rightarrow> 'w exec \<Rightarrow> go_error option \<times> 'w exec" where
  "Run env class backoff work s =
     (case work s of (ret, s1) \<Rightarrow>
        (case class ret of
           Succeed \<Rightarrow> (ret, s1)
         | Fail \<Rightarrow> (ret, s1)
         | Retry \<Rightarrow>
             (case backoff of
                [] \<Rightarrow> (ret, s1)
              | d # ds \<Rightarrow> Run env class ds work (s1\<lparr>world := Sleep env d (world s1)\<rparr>))))"

declare Run.simps [simp del]

text \<open>
  The closure passed to \<^verbatim>\<open>r.Run\<close>: one call of \<^verbatim>\<open>PutRecordBatch\<close> with the current
  batch; \<^verbatim>\<open>result\<close> is assigned only when the error is nil. The call is logged.
\<close>

definition attempt ::
  "'w env \<Rightarrow> string \<Rightarrow> Record list \<Rightarrow> time \<Rightarrow> 'w exec \<Rightarrow> go_error option \<times> 'w exec" where
  "attempt env stream b started s =
     (let inp = \<lparr>DeliveryStreamName = stream, Records = b\<rparr>;
          s1 = s\<lparr>submissions := submissions s @
                 [\<lparr>round_started = started, submitted_at = Now env (world s), submitted = inp\<rparr>]\<rparr>
      in case PutRecordBatch env inp (world s1) of
           ((out, err), w) \<Rightarrow>
             (case err of
                Some e \<Rightarrow> (Some e, s1\<lparr>world := w\<rparr>)
              | None \<Rightarrow> (None, s1\<lparr>world := w, result := out\<rparr>)))"

text \<open>
  The loop over \<^verbatim>\<open>result.RequestResponses\<close> that builds \<^verbatim>\<open>newbatch\<close>, from index \<open>i\<close>
  on. Reading \<^verbatim>\<open>res.ErrorCode\<close> through a nil entry panics, and so does \<^verbatim>\<open>batch[i]\<close>
  when the response has more entries than the batch has records.
\<close>

fun unprocessed ::
  "Record list \<Rightarrow> nat \<Rightarrow> PutRecordBatchResponseEntry option list \<Rightarrow> Record list \<Rightarrow>
   panic + Record list" where
  "unprocessed b i [] newbatch = Inr newbatch"
| "unprocessed b i (res # rest) newbatch =
     (case res of
        None \<Rightarrow> Inl NilDereference
      | Some e \<Rightarrow>
          if StringValue (ErrorCode e) = '''' then unprocessed b (Suc i) rest newbatch
          else if i < length b then unprocessed b (Suc i) rest (newbatch @ [b ! i])
          else Inl IndexOutOfRange)"

text \<open>
  \<^verbatim>\<open>sendBatch\<close>. The loop runs for as long as the clock is before \<^verbatim>\<open>timeout\<close>, which
  the world may never let end: the result is \<open>None\<close> when the function does not return.
  Reading \<^verbatim>\<open>result.FailedPutCount\<close> through a nil \<^verbatim>\<open>result\<close> panics.
\<close>

partial_function (option) sendBatch ::
  "'w env \<Rightarrow> string \<Rightarrow> time \<Rightarrow> Record list \<Rightarrow> 'w exec \<Rightarrow> (outcome \<times> 'w exec) option" where
  "sendBatch env stream timeout b s =
     (let started = Now env (world s) in
      if started < timeout then
        (case Run env Classify (ExponentialBackoff 5 (100 * Millisecond))
                (attempt env stream b started) (s\<lparr>result := None\<rparr>) of
           (Some err, s1) \<Rightarrow> Some (Returned (Some (Errorf_PutRecords err)), s1)
         | (None, s1) \<Rightarrow>
             (case result s1 of
                None \<Rightarrow> Some (Panicked NilDereference, s1)
              | Some out \<Rightarrow>
                  if Int64Value (FailedPutCount out) = 0 then Some (Returned None, s1)
                  else (case unprocessed b 0 (RequestResponses out) [] of
                          Inl p \<Rightarrow> Some (Panicked p, s1)
                        | Inr newbatch \<Rightarrow> sendBatch env stream timeout newbatch s1)))
      else Some (Returned None, s))"

text \<open>
  The call \<^verbatim>\<open>r.Run(func() error { ... })\<close> of one round, as it stands in \<^verbatim>\<open>sendBatch\<close>.
\<close>

abbreviation (input) retried_submission ::
  "'w env \<Rightarrow> string \<Rightarrow> Record list \<Rightarrow> 'w exec \<Rightarrow> go_error option \<times> 'w exec" where
  "retried_submission env stream b s \<equiv>
     Run env Classify (ExponentialBackoff 5 (100 * Millisecond))
       (attempt env stream b (Now env (world s))) (s\<lparr>result := None\<rparr>)"

section \<open>Notions of the specification\<close>

text \<open>The byte counter is the sum of the lengths of the pending records.\<close>

definition pendingBytes_invariant :: "'api Logger \<Rightarrow> bool" where
  "pendingBytes_invariant al \<longleftrightarrow> batchBytes al = (\<Sum>r\<leftarrow>batch al. int (length (Data r)))"

text \<open>
  The states of a logger that a caller can see: the one \<^verbatim>\<open>New\<close> returns, and the one
  left by any \<^verbatim>\<open>Write\<close> or \<^verbatim>\<open>Close\<close> on such a state, whatever the clock and the input.
\<close>

inductive observable :: "'v json \<Rightarrow> 'api Logger \<Rightarrow> bool" for js :: "'v json" where
  created: "New getenv firehose_New c = Inr al \<Longrightarrow> observable js al"
| written: "observable js al \<Longrightarrow> Write js now al bs = (r, al', t) \<Longrightarrow> observable js al'"
| closed: "observable js al \<Longrightarrow> Close now al = (e, al', t) \<Longrightarrow> observable js al'"

text \<open>The decoded entry without the five fields that kayvee adds.\<close>

definition without_ignored :: "'v gomap \<Rightarrow> 'v gomap" where
  "without_ignored m =
     map_option (\<lambda>f k. if k \<in> {''level'', ''source'', ''title'', ''deploy_env'', ''wf_id''}
                        then None else f k) m"


definition no_error_code :: "PutRecordBatchResponseEntry option \<Rightarrow> bool" where
  "no_error_code res =
     (case res of None \<Rightarrow> False | Some e \<Rightarrow> StringValue (ErrorCode e) = '''')"


definition request :: "string \<Rightarrow> Record list \<Rightarrow> PutRecordBatchInput" where
  "request stream b = \<lparr>DeliveryStreamName = stream, Records = b\<rparr>"

text \<open>
  Time passes: the clock is later after every call of \<^verbatim>\<open>PutRecordBatch\<close> than before
  it, and no sleep sets it back.
\<close>

definition clock_advances :: "'w env \<Rightarrow> bool" where
  "clock_advances env \<longleftrightarrow>
     (\<forall>inp w. Now env w < Now env (snd (PutRecordBatch env inp w)))
     \<and> (\<forall>d w. Now env w \<le> Now env (Sleep env d w))"

text \<open>
  An endpoint that answers every request without an error, with a positive count of
  failed records and no error code on any entry.
\<close>

definition fails_without_codes :: "'w env \<Rightarrow> bool" where
  "fails_without_codes env \<longleftrightarrow>
     (\<forall>inp w. \<exists>out w'. PutRecordBatch env inp w = ((Some out, None), w')
        \<and> 0 < Int64Value (FailedPutCount out)
        \<and> (\<forall>res \<in> set (RequestResponses out). no_error_code res))"

section \<open>Example inputs\<close>

text \<open>
  A stand-in for \<^verbatim>\<open>encoding/json\<close> that agrees with it on the inputs used below: one
  log line as kayvee writes it, the JSON value \<^verbatim>\<open>null\<close> (which \<^verbatim>\<open>json.Unmarshal\<close> accepts
  for a map, leaving the map nil, and which \<^verbatim>\<open>json.Marshal\<close> prints for the nil map),
  and a truncated line.
\<close>

definition demo_json :: "string json" where
  \<open>demo_json =
     \<lparr>Unmarshal = (\<lambda>bs. if bs = ''{"level":"info","a":1}''
                         then Inr (Some [''level'' \<mapsto> ''"info"'', ''a'' \<mapsto> ''1''])
                         else if bs = ''null'' then Inr None
                         else Inl (PlainError ''unexpected end of JSON input'')),
      Marshal = (\<lambda>m. case m of None \<Rightarrow> Inr ''null''
                      | Some f \<Rightarrow> (case f ''a'' of None \<Rightarrow> Inr ''{}''
                                    | Some v \<Rightarrow> Inr (''{"a":'' @ v @ ''}'')))\<rparr>\<close>

definition demo_input :: bytes where
  \<open>demo_input = ''{"level":"info","a":1}''\<close>

definition demo_record :: Record where
  \<open>demo_record = \<lparr>Data = ''{"a":1}'' @ [CHR 0x0A]\<rparr>\<close>

definition demo_config :: "unit Config" where
  "demo_config =
     \<lparr>DBName = ''events'', Environment = ''production'', StreamName = [], Region = [],
      FirehosePutRecordBatchMaxRecords = 0, FirehosePutRecordBatchMaxBytes = 0,
      FirehoseAPI = Some ()\<rparr>"

definition demo_logger :: "int \<Rightarrow> unit Logger" where
  "demo_logger maxRecords =
     \<lparr>fhStream = ''production--events'', fhAPI = (), batch = [], batchBytes = 0,
      maxBatchRecords = maxRecords, maxBatchBytes = 4000000\<rparr>"

definition one_pending :: "unit Logger" where
  "one_pending = (demo_logger 500)\<lparr>batch := [demo_record], batchBytes := 8\<rparr>"

definition demo_task :: "time \<Rightarrow> unit task" where
  "demo_task deadline =
     \<lparr>task_batch = [demo_record], task_fhAPI = (), task_fhStream = ''production--events'',
      task_timeout = deadline\<rparr>"

text \<open>
  A world that is only a clock. The endpoint is a function of the request and of the
  time of the call, which gives the answer and how long the call took.
\<close>

definition clock_env ::
  "(PutRecordBatchInput \<Rightarrow> time \<Rightarrow> (PutRecordBatchOutput option \<times> go_error option) \<times> duration)
   \<Rightarrow> time env" where
  "clock_env api =
     \<lparr>Now = (\<lambda>w. w), Sleep = (\<lambda>d w. w + max 0 d),
      PutRecordBatch = (\<lambda>inp w. case api inp w of (res, took) \<Rightarrow> (res, w + took))\<rparr>"

definition start :: "time \<Rightarrow> time exec" where
  "start w = \<lparr>world = w, result = None, submissions = []\<rparr>"

definition accepted :: PutRecordBatchResponseEntry where
  "accepted = \<lparr>ErrorCode = None, ErrorMessage = None, RecordId = Some ''4954698668''\<rparr>"

definition throttled :: PutRecordBatchResponseEntry where
  "throttled = \<lparr>ErrorCode = Some ''ServiceUnavailableException'',
                ErrorMessage = Some ''Slow down.'', RecordId = None\<rparr>"

definition all_accepted :: "PutRecordBatchInput \<Rightarrow> PutRecordBatchOutput" where
  "all_accepted inp =
     \<lparr>FailedPutCount = Some 0, RequestResponses = map (\<lambda>r. Some accepted) (Records inp)\<rparr>"

definition miscounted :: "Record list \<Rightarrow> PutRecordBatchOutput" where
  "miscounted b = \<lparr>FailedPutCount = Some 1, RequestResponses = map (\<lambda>r. Some accepted) b\<rparr>"

definition two_throttled :: PutRecordBatchOutput where
  "two_throttled =
     \<lparr>FailedPutCount = Some 2,
      RequestResponses = [Some accepted, Some throttled, Some accepted, Some throttled,
                          Some accepted]\<rparr>"

definition connection_reset :: go_error where
  "connection_reset = AwsError ''RequestError'' ''RequestError: send request failed''"

definition stream_missing :: go_error where
  "stream_missing =
     AwsError ''ResourceNotFoundException'' ''ResourceNotFoundException: Firehose not found''"

text \<open>
  Five endpoints: one whose calls hang for 61 seconds and end in a connection reset
  during the first 61 seconds, and accept everything afterwards; one that knows no such
  stream; one that throttles the second and the fourth record of a batch of five; one
  that reports one failed record but marks none; and one that resets every connection.
\<close>

definition slow_reset_api ::
  "PutRecordBatchInput \<Rightarrow> time \<Rightarrow> (PutRecordBatchOutput option \<times> go_error option) \<times> duration" where
  "slow_reset_api inp w =
     (if w < 61000000000 then ((None, Some connection_reset), 61000000000)
      else ((Some (all_accepted inp), None), 20000000))"

definition missing_stream_api ::
  "PutRecordBatchInput \<Rightarrow> time \<Rightarrow> (PutRecordBatchOutput option \<times> go_error option) \<times> duration" where
  "missing_stream_api inp w = ((None, Some stream_missing), 20000000)"

definition throttling_api ::
  "PutRecordBatchInput \<Rightarrow> time \<Rightarrow> (PutRecordBatchOutput option \<times> go_error option) \<times> duration" where
  "throttling_api inp w =
     (if length (Records inp) = 5 then ((Some two_throttled, None), 20000000)
      else ((Some (all_accepted inp), None), 20000000))"

definition miscounting_api ::
  "PutRecordBatchInput \<Rightarrow> time \<Rightarrow> (PutRecordBatchOutput option \<times> go_error option) \<times> duration" where
  "miscounting_api inp w = ((Some (miscounted (Records inp)), None), 25000000000)"

definition resetting_api ::
  "PutRecordBatchInput \<Rightarrow> time \<Rightarrow> (PutRecordBatchOutput option \<times> go_error option) \<times> duration" where
  "resetting_api inp w = ((None, Some connection_reset), 20000000)"

definition event :: "char \<Rightarrow> Record" where
  \<open>event c = \<lparr>Data = ''{"n":'' @ [c] @ ''}'' @ [CHR 0x0A]\<rparr>\<close>

definition demo_batch :: "Record list" where
  "demo_batch = map event ''01234''"

definition logged :: "time \<Rightarrow> Record list \<Rightarrow> submission" where
  "logged t b =
     \<lparr>round_started = t, submitted_at = t, submitted = request ''production--events'' b\<rparr>"

definition retried :: "time \<Rightarrow> Record list \<Rightarrow> submission" where
  "retried t b =
     \<lparr>round_started = 0, submitted_at = t, submitted = request ''production--events'' b\<rparr>"

definition late_retry :: "time exec" where
  "late_retry =
     \<lparr>world = 61120000000,
      result = Some (all_accepted (request ''production--events'' [demo_record])),
      submissions = [retried 0 [demo_record], retried 61100000000 [demo_record]]\<rparr>"

definition throttled_round :: "time exec" where
  "throttled_round =
     \<lparr>world = 20000000, result = Some two_throttled, submissions = [logged 0 demo_batch]\<rparr>"

definition miscounted_round :: "time exec" where
  "miscounted_round =
     \<lparr>world = 25000000000, result = Some (miscounted demo_batch),
      submissions = [logged 0 demo_batch]\<rparr>"

definition uncounted :: PutRecordBatchOutput where
  "uncounted =
     \<lparr>FailedPutCount = None,
      RequestResponses = [Some accepted, Some throttled, Some accepted, Some throttled,
                          Some accepted]\<rparr>"

definition uncounting_api ::
  "PutRecordBatchInput \<Rightarrow> time \<Rightarrow> (PutRecordBatchOutput option \<times> go_error option) \<times> duration" where
  "uncounting_api inp w =
     (if length (Records inp) = 5 then ((Some uncounted, None), 20000000)
      else ((Some (all_accepted inp), None), 20000000))"

definition uncounted_round :: "time exec" where
  "uncounted_round =
     \<lparr>world = 20000000, result = Some uncounted, submissions = [logged 0 demo_batch]\<rparr>"

definition resubmitted :: "time exec" where
  "resubmitted =
     \<lparr>world = 40000000,
      result = Some (all_accepted (request ''production--events''
                                     [event CHR ''1'', event CHR ''3''])),
      submissions = [logged 0 demo_batch, logged 20000000 [event CHR ''1'', event CHR ''3'']]\<rparr>"

definition empty_rounds :: "time exec" where
  "empty_rounds =
     \<lparr>world = 75000000000, result = Some (miscounted []),
      submissions = [logged 0 demo_batch, logged 25000000000 [], logged 50000000000 []]\<rparr>"

definition null_pending :: "unit Logger" where
  "null_pending = (demo_logger 500)\<lparr>batch := [\<lparr>Data = ''null'' @ [CHR 0x0A]\<rparr>], batchBytes := 5\<rparr>"

section \<open>Write and Close: lemmas\<close>

lemma fold_delete: "fold delete ignoredFields m = without_ignored m"
  by (cases m) (auto simp: ignoredFields_def without_ignored_def fun_eq_iff)

text \<open>
  For a counter that is positive, exceeding the integer threshold of the code is
  exceeding nine tenths of the limit as a real number.
\<close>

lemma byteThreshold_real:
  assumes "0 < b"
  shows "byteThreshold m < b \<longleftrightarrow> 0.9 * real_of_int m < real_of_int b"
proof (cases "0 \<le> m")
  case True
  have "(9 * m) div 10 = \<lfloor>real_of_int (9 * m) / real_of_int 10\<rfloor>"
    by (simp only: floor_divide_of_int_eq)
  then have "(9 * m) div 10 < b \<longleftrightarrow> real_of_int (9 * m) / real_of_int 10 < real_of_int b"
    by (simp only: floor_less_iff)
  also have "\<dots> \<longleftrightarrow> 0.9 * real_of_int m < real_of_int b" by simp
  finally show ?thesis using True by (simp add: byteThreshold_def)
next
  case False
  then have "byteThreshold m \<le> 0" by (simp add: byteThreshold_def)
  moreover have "0.9 * real_of_int m < 0" using False by simp
  ultimately show ?thesis using assms by simp
qed

lemma Write_decode_error:
  "Unmarshal js bs = Inl err \<Longrightarrow> Write js now al bs = ((0, Some err), al, None)"
  by (simp add: Write_def)

lemma Write_encode_error:
  "Unmarshal js bs = Inr m \<Longrightarrow> Marshal js (fold delete ignoredFields m) = Inl err \<Longrightarrow>
   Write js now al bs = ((0, Some err), al, None)"
  by (simp add: Write_def)

lemma Write_success:
  assumes "Unmarshal js bs = Inr m" "Marshal js (fold delete ignoredFields m) = Inr bs1"
  shows "Write js now al bs =
     (let n = int (length bs1) + 1;
          pending = batch al @ [\<lparr>Data = bs1 @ [CHR 0x0A]\<rparr>] in
      if int (length (batch al)) + 1 = maxBatchRecords al
         \<or> byteThreshold (maxBatchBytes al) < batchBytes al + n
      then ((n, None), al\<lparr>batch := [], batchBytes := 0\<rparr>,
            Some \<lparr>task_batch = pending, task_fhAPI = fhAPI al, task_fhStream = fhStream al,
                  task_timeout = now + timeoutForSendingBatches\<rparr>)
      else ((n, None), al\<lparr>batch := pending, batchBytes := batchBytes al + n\<rparr>, None))"
  using assms by (simp add: Write_def detach_def Let_def)

lemma Write_no_error:
  assumes "Write js now al bs = ((n, None), al', t)"
  obtains m bs1 where "Unmarshal js bs = Inr m" "Marshal js (fold delete ignoredFields m) = Inr bs1"
proof (cases "Unmarshal js bs")
  case (Inl err)
  with assms show ?thesis by (simp add: Write_decode_error)
next
  case (Inr m)
  show ?thesis
  proof (cases "Marshal js (fold delete ignoredFields m)")
    case (Inl err)
    with Inr assms show ?thesis by (simp add: Write_encode_error)
  next
    case Inr2: (Inr bs1)
    with Inr that show ?thesis by blast
  qed
qed

lemma invariant_nonneg: "pendingBytes_invariant al \<Longrightarrow> 0 \<le> batchBytes al"
  by (auto simp: pendingBytes_invariant_def intro!: sum_list_nonneg)

lemma Write_invariant:
  assumes "pendingBytes_invariant al"
  shows "pendingBytes_invariant (fst (snd (Write js now al bs)))"
proof (cases "Unmarshal js bs")
  case (Inl err)
  with assms show ?thesis by (simp add: Write_decode_error)
next
  case (Inr m)
  show ?thesis
  proof (cases "Marshal js (fold delete ignoredFields m)")
    case (Inl err)
    with Inr assms show ?thesis by (simp add: Write_encode_error)
  next
    case Inr2: (Inr bs1)
    show ?thesis
      using assms by (simp add: Write_success [OF Inr Inr2] Let_def pendingBytes_invariant_def)
  qed
qed

lemma Close_invariant:
  "pendingBytes_invariant al \<Longrightarrow> pendingBytes_invariant (fst (snd (Close now al)))"
  by (simp add: Close_def detach_def pendingBytes_invariant_def)

lemma New_invariant: "New getenv firehose_New c = Inr al \<Longrightarrow> pendingBytes_invariant al"
  by (auto simp: New_def Let_def pendingBytes_invariant_def split: if_splits option.splits)

lemma observable_invariant: "observable js al \<Longrightarrow> pendingBytes_invariant al"
proof (induction rule: observable.induct)
  case (created getenv firehose_New c al)
  then show ?case by (rule New_invariant)
next
  case (written al now bs r al' t)
  then show ?case using Write_invariant [of al js now bs] by simp
next
  case (closed al now e al' t)
  then show ?case using Close_invariant [of al now] by simp
qed

subsection \<open>The example inputs, evaluated\<close>

lemma demo_Unmarshal:
  "Unmarshal demo_json demo_input = Inr (Some [''level'' \<mapsto> ''\"info\"'', ''a'' \<mapsto> ''1''])"
  by (simp add: demo_json_def demo_input_def)

lemma demo_Marshal:
  "Marshal demo_json (fold delete ignoredFields (Some [''level'' \<mapsto> ''\"info\"'', ''a'' \<mapsto> ''1'']))
   = Inr ''{\"a\":1}''"
  by (simp add: demo_json_def ignoredFields_def)

lemma demo_Write_full:
  "Write demo_json 5 (demo_logger 1) demo_input =
     ((8, None), demo_logger 1, Some (demo_task 60000000005))"
  by (simp add: Write_success [OF demo_Unmarshal demo_Marshal] demo_logger_def demo_record_def
      demo_task_def byteThreshold_def timeoutForSendingBatches_def Minute_def)

lemma demo_Write_not_full:
  "Write demo_json 5 (demo_logger 500) demo_input = ((8, None), one_pending, None)"
  by (simp add: Write_success [OF demo_Unmarshal demo_Marshal] demo_logger_def demo_record_def
      one_pending_def byteThreshold_def)

lemma demo_Close:
  "Close 9 one_pending = (None, demo_logger 500, Some (demo_task 60000000009))"
  by (simp add: Close_def detach_def demo_logger_def one_pending_def demo_task_def
      timeoutForSendingBatches_def Minute_def)

lemma demo_New: "New (\<lambda>k. []) (\<lambda>r. ()) demo_config = Inr (demo_logger 500)"
  by (simp add: New_def demo_config_def demo_logger_def Let_def min_go_def
      firehosePutRecordBatchMaxRecords_def firehosePutRecordBatchMaxBytes_def)

lemma demo_observable: "observable demo_json one_pending"
proof -
  have "observable demo_json (demo_logger 500)"
    using demo_New by (rule observable.created)
  then show ?thesis using demo_Write_not_full by (rule observable.written)
qed

section \<open>Write and Close: the claims\<close>

text \<open>
  Claim C1. A call of \<^verbatim>\<open>Write\<close> that returns no error starts a send if and only if,
  once the new record is appended, the number of pending records equals
  \<^verbatim>\<open>maxBatchRecords\<close> or the byte counter is strictly greater than nine tenths of
  \<^verbatim>\<open>maxBatchBytes\<close>; otherwise nothing is sent. The returned \<open>n\<close> is the length of the
  appended record, so the counter after the append is \<open>batchBytes al + n\<close>. The counter
  before the call is not negative, as in every state a caller can see.
\<close>

theorem Write_dispatches_iff_full:
  assumes "0 \<le> batchBytes al"
      and "Write js now al bs = ((n, None), al', t)"
  shows "t \<noteq> None \<longleftrightarrow>
           int (length (batch al)) + 1 = maxBatchRecords al
           \<or> 0.9 * real_of_int (maxBatchBytes al) < real_of_int (batchBytes al + n)"
proof -
  from assms(2) obtain m bs1 where
    ok: "Unmarshal js bs = Inr m" "Marshal js (fold delete ignoredFields m) = Inr bs1"
    by (rule Write_no_error)
  let ?n = "int (length bs1) + 1"
  have n: "n = ?n"
    using assms(2) Write_success [OF ok, of now al] by (simp add: Let_def split: if_splits)
  have "0 < batchBytes al + ?n" using assms(1) by simp
  then have thr: "byteThreshold (maxBatchBytes al) < batchBytes al + ?n \<longleftrightarrow>
      0.9 * real_of_int (maxBatchBytes al) < real_of_int (batchBytes al + ?n)"
    by (rule byteThreshold_real)
  have "t \<noteq> None \<longleftrightarrow> int (length (batch al)) + 1 = maxBatchRecords al
           \<or> byteThreshold (maxBatchBytes al) < batchBytes al + ?n"
    using assms(2) Write_success [OF ok, of now al] by (auto simp: Let_def split: if_splits)
  with thr n show ?thesis by simp
qed

theorem Write_dispatches_iff_full_witness:
  "0 \<le> batchBytes (demo_logger 1)
   \<and> Write demo_json 5 (demo_logger 1) demo_input =
       ((8, None), demo_logger 1, Some (demo_task 60000000005))
   \<and> int (length (batch (demo_logger 1))) + 1 = maxBatchRecords (demo_logger 1)
   \<and> 0 \<le> batchBytes (demo_logger 500)
   \<and> Write demo_json 5 (demo_logger 500) demo_input = ((8, None), one_pending, None)
   \<and> \<not> (int (length (batch (demo_logger 500))) + 1 = maxBatchRecords (demo_logger 500)
          \<or> 0.9 * real_of_int (maxBatchBytes (demo_logger 500))
             < real_of_int (batchBytes (demo_logger 500) + 8))"
proof -
  have h1: "0 \<le> batchBytes (demo_logger 1)" and h2: "0 \<le> batchBytes (demo_logger 500)"
    by (simp_all add: demo_logger_def)
  show ?thesis
    using Write_dispatches_iff_full [OF h1 demo_Write_full]
      Write_dispatches_iff_full [OF h2 demo_Write_not_full] h1 h2
      demo_Write_full demo_Write_not_full
    by (simp add: demo_logger_def)
qed

text \<open>
  Claim C3. In any state of the logger, when the append reaches a threshold, the batch
  handed to the sender is the pending records followed by the record just appended,
  and the logger is left with no pending record and a byte counter of zero.
\<close>

theorem Write_detaches_all_pending:
  assumes "Unmarshal js bs = Inr m"
      and "Marshal js (fold delete ignoredFields m) = Inr bs1"
      and "int (length (batch al)) + 1 = maxBatchRecords al
           \<or> byteThreshold (maxBatchBytes al) < batchBytes al + (int (length bs1) + 1)"
  shows "\<exists>al' t. Write js now al bs = ((int (length bs1) + 1, None), al', Some t)
           \<and> task_batch t = batch al @ [\<lparr>Data = bs1 @ [CHR 0x0A]\<rparr>]
           \<and> batch al' = [] \<and> batchBytes al' = 0"
  using assms(3) Write_success [OF assms(1,2), of now al] by (simp add: Let_def)

theorem Write_detaches_all_pending_witness:
  "\<exists>al' t. Write demo_json 5 (demo_logger 1) demo_input = ((8, None), al', Some t)
     \<and> task_batch t = [demo_record] \<and> batch al' = [] \<and> batchBytes al' = 0"
proof -
  have h: "int (length (batch (demo_logger 1))) + 1 = maxBatchRecords (demo_logger 1)
           \<or> byteThreshold (maxBatchBytes (demo_logger 1))
              < batchBytes (demo_logger 1) + (int (length ''{\"a\":1}'') + 1)"
    by (simp add: demo_logger_def)
  show ?thesis
    using Write_detaches_all_pending [OF demo_Unmarshal demo_Marshal h, of 5]
    by (simp add: demo_logger_def demo_record_def)
qed

text \<open>
  Claim C7. The byte counter equals the sum of the lengths of the pending records in
  every state of the logger that a caller can see, and every \<^verbatim>\<open>Write\<close> and every
  \<^verbatim>\<open>Close\<close> keeps it so.
\<close>

theorem pendingBytes_invariant_holds:
  "(observable js al \<longrightarrow> pendingBytes_invariant al)
   \<and> (pendingBytes_invariant al \<longrightarrow> pendingBytes_invariant (fst (snd (Write js now al bs))))
   \<and> (pendingBytes_invariant al \<longrightarrow> pendingBytes_invariant (fst (snd (Close now' al))))"
  by (simp add: observable_invariant Write_invariant Close_invariant)

theorem pendingBytes_invariant_holds_witness:
  "observable demo_json one_pending
   \<and> pendingBytes_invariant one_pending
   \<and> pendingBytes_invariant (fst (snd (Write demo_json 7 one_pending demo_input)))
   \<and> pendingBytes_invariant (fst (snd (Close 9 one_pending)))"
  using demo_observable pendingBytes_invariant_holds [of demo_json one_pending 7 demo_input 9]
  by simp

text \<open>
  Claim C8, as stated: every input that cannot be decoded as a JSON object is refused,
  an error is returned and nothing enters the batch. The input \<^verbatim>\<open>null\<close> is not a JSON
  object, but \<^verbatim>\<open>json.Unmarshal\<close> accepts it for a map and leaves the map nil:
  \<^verbatim>\<open>Write\<close> returns 5 and no error, and the record \<^verbatim>\<open>null\<close> plus its newline is
  pending.
\<close>

theorem Write_stores_null_counterexample:
  "Unmarshal demo_json ''null'' = Inr None
   \<and> Write demo_json 5 (demo_logger 500) ''null'' = ((5, None), null_pending, None)
   \<and> batch null_pending = [\<lparr>Data = ''null'' @ [CHR 0x0A]\<rparr>]"
  by (simp add: Write_def demo_json_def demo_logger_def null_pending_def ignoredFields_def
      byteThreshold_def)

text \<open>
  Claim C8, amended. When \<^verbatim>\<open>json.Unmarshal\<close> returns an error for the input,
  \<^verbatim>\<open>Write\<close> returns that error and a byte count of zero, starts no send, and leaves
  the logger as it was: no record enters the batch.
\<close>

theorem Write_rejects_undecodable:
  "Unmarshal js bs = Inl err \<Longrightarrow> Write js now al bs = ((0, Some err), al, None)"
  by (simp add: Write_def)

theorem Write_rejects_undecodable_witness:
  "Unmarshal demo_json ''{'' = Inl (PlainError ''unexpected end of JSON input'')
   \<and> Write demo_json 5 one_pending ''{'' =
       ((0, Some (PlainError ''unexpected end of JSON input'')), one_pending, None)"
proof -
  have h: "Unmarshal demo_json ''{'' = Inl (PlainError ''unexpected end of JSON input'')"
    by (simp add: demo_json_def)
  show ?thesis using h Write_rejects_undecodable [OF h, of 5 one_pending] by simp
qed

text \<open>
  Claim C9. The integer that a successful \<^verbatim>\<open>Write\<close> returns is the length of the record
  it stored (the last record of the batch sent, or of the pending batch when nothing is
  sent): the decoded input without the five ignored fields, encoded again, and one
  newline. It is not the length of the input in general: in the example the input has
  22 bytes and \<^verbatim>\<open>Write\<close> returns 8.
\<close>

theorem Write_returns_stored_length:
  assumes "Write js now al bs = ((n, None), al', t)"
  shows "\<exists>m bs1. Unmarshal js bs = Inr m \<and> Marshal js (without_ignored m) = Inr bs1
           \<and> last (case t of None \<Rightarrow> batch al' | Some d \<Rightarrow> task_batch d)
               = \<lparr>Data = bs1 @ [CHR 0x0A]\<rparr>
           \<and> n = int (length (bs1 @ [CHR 0x0A]))"
proof -
  from assms obtain m bs1 where
    ok: "Unmarshal js bs = Inr m" "Marshal js (fold delete ignoredFields m) = Inr bs1"
    by (rule Write_no_error)
  have "last (case t of None \<Rightarrow> batch al' | Some d \<Rightarrow> task_batch d) = \<lparr>Data = bs1 @ [CHR 0x0A]\<rparr>
        \<and> n = int (length (bs1 @ [CHR 0x0A]))"
    using assms Write_success [OF ok, of now al] by (auto simp: Let_def split: if_splits)
  with ok show ?thesis by (auto simp: fold_delete)
qed

theorem Write_returns_stored_length_witness:
  "Write demo_json 5 (demo_logger 500) demo_input = ((8, None), one_pending, None)
   \<and> int (length demo_input) = 22
   \<and> (\<exists>m bs1. Unmarshal demo_json demo_input = Inr m
         \<and> Marshal demo_json (without_ignored m) = Inr bs1
         \<and> last (batch one_pending) = \<lparr>Data = bs1 @ [CHR 0x0A]\<rparr>
         \<and> (8::int) = int (length (bs1 @ [CHR 0x0A])))"
  using demo_Write_not_full Write_returns_stored_length [OF demo_Write_not_full]
  by (simp add: demo_input_def)

section \<open>The classifier: the claim\<close>

text \<open>
  Claim C4. \<^verbatim>\<open>Classify\<close> returns \<^verbatim>\<open>Succeed\<close> exactly for the nil error, \<^verbatim>\<open>Retry\<close>
  exactly for an AWS error whose code is \<^verbatim>\<open>RequestError\<close>, and \<^verbatim>\<open>Fail\<close> for every other
  error.
\<close>

theorem Classify_cases:
  "(Classify err = Succeed \<longleftrightarrow> err = None)
   \<and> (Classify err = Retry \<longleftrightarrow> (\<exists>m. err = Some (AwsError ''RequestError'' m)))
   \<and> (Classify err = Fail \<longleftrightarrow> err \<noteq> None \<and> (\<forall>m. err \<noteq> Some (AwsError ''RequestError'' m)))"
  by (cases err rule: Classify.cases) auto

theorem Classify_cases_witness:
  "Classify None = Succeed \<and> Classify (Some connection_reset) = Retry
   \<and> Classify (Some stream_missing) = Fail \<and> Classify (Some (PlainError ''EOF'')) = Fail"
  using Classify_cases [of None] Classify_cases [of "Some connection_reset"]
    Classify_cases [of "Some stream_missing"] Classify_cases [of "Some (PlainError ''EOF'')"]
  by (simp add: connection_reset_def stream_missing_def)

section \<open>Delivery: lemmas\<close>

lemma backoff5:
  "ExponentialBackoff 5 d = [d, d * 2, d * 2 * 2, d * 2 * 2 * 2, d * 2 * 2 * 2 * 2]"
  by (simp add: eval_nat_numeral)


lemma unprocessed_no_codes:
  assumes "\<forall>res \<in> set rs. no_error_code res"
  shows "unprocessed b i rs acc = Inr acc"
  using assms
  by (induction rs arbitrary: i) (auto simp: no_error_code_def split: option.splits)

subsection \<open>One round\<close>

lemma attempt_world:
  "attempt env stream b t s = (r, s1) \<Longrightarrow>
   world s1 = snd (PutRecordBatch env (request stream b) (world s))"
  by (auto simp: attempt_def request_def Let_def split: prod.splits option.splits)

lemma attempt_log:
  "attempt env stream b t s = (r, s1) \<Longrightarrow>
   submissions s1 = submissions s @
     [\<lparr>round_started = t, submitted_at = Now env (world s), submitted = request stream b\<rparr>]"
  by (auto simp: attempt_def request_def Let_def split: prod.splits option.splits)

text \<open>Every call that a round makes carries the batch of the round.\<close>

lemma Run_attempt_log:
  "Run env class bo (attempt env stream b t) s = (r, s1) \<Longrightarrow>
   \<exists>xs. submissions s1 = submissions s @ xs \<and> xs \<noteq> []
     \<and> (\<forall>x \<in> set xs. round_started x = t \<and> submitted x = request stream b)"
proof (induction bo arbitrary: s)
  case Nil
  obtain ret s' where a: "attempt env stream b t s = (ret, s')" by (cases "attempt env stream b t s")
  with Nil have "s1 = s'" by (simp add: Run.simps split: Action.splits)
  with attempt_log [OF a] show ?case by simp
next
  case (Cons d ds)
  obtain ret s' where a: "attempt env stream b t s = (ret, s')" by (cases "attempt env stream b t s")
  show ?case
  proof (cases "class ret = Retry")
    case False
    with Cons.prems a have "s1 = s'" by (simp add: Run.simps split: Action.splits)
    with attempt_log [OF a] show ?thesis by simp
  next
    case True
    with Cons.prems a have
      "Run env class ds (attempt env stream b t) (s'\<lparr>world := Sleep env d (world s')\<rparr>) = (r, s1)"
      by (simp add: Run.simps)
    from Cons.IH [OF this] obtain xs where
      "submissions s1 = submissions s' @ xs"
      "\<forall>x \<in> set xs. round_started x = t \<and> submitted x = request stream b"
      by auto
    with attempt_log [OF a] show ?thesis by simp
  qed
qed

text \<open>When time passes, the clock is later after a round than before it.\<close>

lemma Run_attempt_clock:
  assumes "clock_advances env"
  shows "Run env class bo (attempt env stream b t) s = (r, s1) \<Longrightarrow>
         Now env (world s) < Now env (world s1)"
proof (induction bo arbitrary: s)
  case Nil
  obtain ret s' where a: "attempt env stream b t s = (ret, s')" by (cases "attempt env stream b t s")
  with Nil have "s1 = s'" by (simp add: Run.simps split: Action.splits)
  with attempt_world [OF a] assms show ?case by (simp add: clock_advances_def)
next
  case (Cons d ds)
  obtain ret s' where a: "attempt env stream b t s = (ret, s')" by (cases "attempt env stream b t s")
  have lt: "Now env (world s) < Now env (world s')"
    using attempt_world [OF a] assms by (simp add: clock_advances_def)
  show ?case
  proof (cases "class ret = Retry")
    case False
    with Cons.prems a have "s1 = s'" by (simp add: Run.simps split: Action.splits)
    with lt show ?thesis by simp
  next
    case True
    with Cons.prems a have
      "Run env class ds (attempt env stream b t) (s'\<lparr>world := Sleep env d (world s')\<rparr>) = (r, s1)"
      by (simp add: Run.simps)
    from Cons.IH [OF this] have "Now env (Sleep env d (world s')) < Now env (world s1)" by simp
    moreover have "Now env (world s') \<le> Now env (Sleep env d (world s'))"
      using assms by (simp add: clock_advances_def)
    ultimately show ?thesis using lt by simp
  qed
qed

lemma Run_first_try:
  assumes "PutRecordBatch env (request stream b) (world s) = ((Some out, None), w')"
  shows "Run env Classify bo (attempt env stream b t) s =
     (None, s\<lparr>submissions := submissions s @
                 [\<lparr>round_started = t, submitted_at = Now env (world s),
                   submitted = request stream b\<rparr>],
               world := w', result := Some out\<rparr>)"
  using assms by (subst Run.simps) (simp add: attempt_def request_def)

subsection \<open>The loop of sendBatch, one exit at a time\<close>

lemma sendBatch_expired:
  "timeout \<le> Now env (world s) \<Longrightarrow> sendBatch env stream timeout b s = Some (Returned None, s)"
  by (subst sendBatch.simps) simp

lemma sendBatch_error_exit:
  "Now env (world s) < timeout \<Longrightarrow> retried_submission env stream b s = (Some err, s1) \<Longrightarrow>
   sendBatch env stream timeout b s = Some (Returned (Some (Errorf_PutRecords err)), s1)"
  by (subst sendBatch.simps) simp

lemma sendBatch_nil_result:
  "Now env (world s) < timeout \<Longrightarrow> retried_submission env stream b s = (None, s1) \<Longrightarrow>
   result s1 = None \<Longrightarrow>
   sendBatch env stream timeout b s = Some (Panicked NilDereference, s1)"
  by (subst sendBatch.simps) simp

lemma sendBatch_delivered:
  "Now env (world s) < timeout \<Longrightarrow> retried_submission env stream b s = (None, s1) \<Longrightarrow>
   result s1 = Some out \<Longrightarrow> Int64Value (FailedPutCount out) = 0 \<Longrightarrow>
   sendBatch env stream timeout b s = Some (Returned None, s1)"
  by (subst sendBatch.simps) simp

lemma sendBatch_panics:
  "Now env (world s) < timeout \<Longrightarrow> retried_submission env stream b s = (None, s1) \<Longrightarrow>
   result s1 = Some out \<Longrightarrow> Int64Value (FailedPutCount out) \<noteq> 0 \<Longrightarrow>
   unprocessed b 0 (RequestResponses out) [] = Inl p \<Longrightarrow>
   sendBatch env stream timeout b s = Some (Panicked p, s1)"
  by (subst sendBatch.simps) simp

lemma sendBatch_narrows:
  "Now env (world s) < timeout \<Longrightarrow> retried_submission env stream b s = (None, s1) \<Longrightarrow>
   result s1 = Some out \<Longrightarrow> Int64Value (FailedPutCount out) \<noteq> 0 \<Longrightarrow>
   unprocessed b 0 (RequestResponses out) [] = Inr nb \<Longrightarrow>
   sendBatch env stream timeout b s = sendBatch env stream timeout nb s1"
  by (subst sendBatch.simps) simp

text \<open>
  \<^verbatim>\<open>sendBatch\<close> returns nil only from the loop test or from the \<^verbatim>\<open>break\<close>: at the
  deadline, or on a response whose count of failed records is zero.
\<close>

lemma sendBatch_nil_return_aux:
  "sendBatch env stream timeout b s = Some y \<Longrightarrow>
   fst y = Returned None \<longrightarrow>
     timeout \<le> Now env (world (snd y))
     \<or> (\<exists>out. result (snd y) = Some out \<and> Int64Value (FailedPutCount out) = 0)"
proof (induction rule: sendBatch.raw_induct [rotated, consumes 1])
  case (1 sendBatch env stream timeout b s y)
  show ?case
  proof (cases "Now env (world s) < timeout")
    case False
    with 1(2) show ?thesis by auto
  next
    case True
    obtain r s1 where run: "retried_submission env stream b s = (r, s1)"
      by (cases "retried_submission env stream b s")
    show ?thesis
      using 1(2) True run 1(1)
      by (auto simp: Let_def split: option.splits if_splits sum.splits)
  qed
qed

lemma sendBatch_nil_return:
  assumes "sendBatch env stream timeout b s = Some (Returned None, s')"
  shows "timeout \<le> Now env (world s')
         \<or> (\<exists>out. result s' = Some out \<and> Int64Value (FailedPutCount out) = 0)"
  using sendBatch_nil_return_aux [OF assms] by simp

text \<open>
  When time passes, \<^verbatim>\<open>sendBatch\<close> returns or panics, and every call it made belongs to
  a round that began before the deadline. The induction is on the time left.
\<close>

lemma sendBatch_returns:
  assumes "clock_advances env"
  shows "\<exists>oc s' xs. sendBatch env stream timeout b s = Some (oc, s')
           \<and> submissions s' = submissions s @ xs
           \<and> (\<forall>x \<in> set xs. round_started x < timeout)"
proof (induction "nat (timeout - Now env (world s))" arbitrary: b s rule: less_induct)
  case less
  show ?case
  proof (cases "Now env (world s) < timeout")
    case False
    then show ?thesis by (simp add: sendBatch_expired)
  next
    case True
    obtain r s1 where run: "retried_submission env stream b s = (r, s1)"
      by (cases "retried_submission env stream b s")
    from Run_attempt_log [OF run] obtain ys where
      ys: "submissions s1 = submissions s @ ys" "\<forall>x \<in> set ys. round_started x < timeout"
      using True by auto
    from Run_attempt_clock [OF assms run] have clk: "Now env (world s) < Now env (world s1)"
      by simp
    show ?thesis
    proof (cases r)
      case (Some err)
      with sendBatch_error_exit [OF True] run ys show ?thesis by auto
    next
      case None
      note run' = run [unfolded None]
      show ?thesis
      proof (cases "result s1")
        case None
        with sendBatch_nil_result [OF True run'] ys show ?thesis by auto
      next
        case (Some out)
        show ?thesis
        proof (cases "Int64Value (FailedPutCount out) = 0")
          case True
          with sendBatch_delivered [OF \<open>Now env (world s) < timeout\<close> run' Some] ys
          show ?thesis by auto
        next
          case False
          show ?thesis
          proof (cases "unprocessed b 0 (RequestResponses out) []")
            case (Inl p)
            with sendBatch_panics [OF True run' Some False] ys show ?thesis by auto
          next
            case (Inr nb)
            have "nat (timeout - Now env (world s1)) < nat (timeout - Now env (world s))"
              using clk True by simp
            from less [OF this, of nb] obtain oc s' xs where
              "sendBatch env stream timeout nb s1 = Some (oc, s')"
              "submissions s' = submissions s1 @ xs" "\<forall>x \<in> set xs. round_started x < timeout"
              by blast
            with sendBatch_narrows [OF True run' Some False Inr] ys show ?thesis by auto
          qed
        qed
      qed
    qed
  qed
qed

text \<open>
  The same induction gives the other bound: no call that \<^verbatim>\<open>sendBatch\<close> makes belongs to
  a round that began before \<^verbatim>\<open>sendBatch\<close> was entered.
\<close>

lemma sendBatch_returns_after:
  assumes "clock_advances env"
  shows "\<exists>oc s' xs. sendBatch env stream timeout b s = Some (oc, s')
           \<and> submissions s' = submissions s @ xs
           \<and> (\<forall>x \<in> set xs. Now env (world s) \<le> round_started x)"
proof (induction "nat (timeout - Now env (world s))" arbitrary: b s rule: less_induct)
  case less
  show ?case
  proof (cases "Now env (world s) < timeout")
    case False
    then show ?thesis by (simp add: sendBatch_expired)
  next
    case True
    obtain r s1 where run: "retried_submission env stream b s = (r, s1)"
      by (cases "retried_submission env stream b s")
    from Run_attempt_log [OF run] obtain ys where
      ys: "submissions s1 = submissions s @ ys"
          "\<forall>x \<in> set ys. Now env (world s) \<le> round_started x"
      by auto
    from Run_attempt_clock [OF assms run] have clk: "Now env (world s) < Now env (world s1)"
      by simp
    show ?thesis
    proof (cases r)
      case (Some err)
      with sendBatch_error_exit [OF True] run ys show ?thesis by auto
    next
      case None
      note run' = run [unfolded None]
      show ?thesis
      proof (cases "result s1")
        case None
        with sendBatch_nil_result [OF True run'] ys show ?thesis by auto
      next
        case (Some out)
        show ?thesis
        proof (cases "Int64Value (FailedPutCount out) = 0")
          case True
          with sendBatch_delivered [OF \<open>Now env (world s) < timeout\<close> run' Some] ys
          show ?thesis by auto
        next
          case False
          show ?thesis
          proof (cases "unprocessed b 0 (RequestResponses out) []")
            case (Inl p)
            with sendBatch_panics [OF True run' Some False] ys show ?thesis by auto
          next
            case (Inr nb)
            have "nat (timeout - Now env (world s1)) < nat (timeout - Now env (world s))"
              using clk True by simp
            from less [OF this, of nb] obtain oc s' xs where
              "sendBatch env stream timeout nb s1 = Some (oc, s')"
              "submissions s' = submissions s1 @ xs"
              "\<forall>x \<in> set xs. Now env (world s1) \<le> round_started x"
              by blast
            with sendBatch_narrows [OF True run' Some False Inr] ys clk show ?thesis
              by fastforce
          qed
        qed
      qed
    qed
  qed
qed

text \<open>
  When time passes and the deadline is not reached, \<^verbatim>\<open>sendBatch\<close> makes the calls of a
  first round, at least one and all with the batch it was given, and every later call
  belongs to a later round.
\<close>

lemma sendBatch_first_round:
  assumes "clock_advances env" "Now env (world s) < timeout"
  shows "\<exists>oc s' ys zs. sendBatch env stream timeout b s = Some (oc, s')
           \<and> submissions s' = submissions s @ ys @ zs \<and> ys \<noteq> []
           \<and> (\<forall>y \<in> set ys. submitted y = request stream b
                  \<and> round_started y = Now env (world s))
           \<and> (\<forall>z \<in> set zs. Now env (world s) < round_started z)"
proof -
  obtain r s1 where run: "retried_submission env stream b s = (r, s1)"
    by (cases "retried_submission env stream b s")
  from Run_attempt_log [OF run] obtain ys where
    ys: "submissions s1 = submissions s @ ys" "ys \<noteq> []"
        "\<forall>y \<in> set ys. submitted y = request stream b \<and> round_started y = Now env (world s)"
    by auto
  from Run_attempt_clock [OF assms(1) run] have clk: "Now env (world s) < Now env (world s1)"
    by simp
  have stop: ?thesis if "sendBatch env stream timeout b s = Some (oc, s1)" for oc
    using that ys by (intro exI [of _ oc] exI [of _ s1] exI [of _ ys] exI [of _ "[]"]) simp
  show ?thesis
  proof (cases r)
    case (Some err)
    with sendBatch_error_exit [OF assms(2)] run show ?thesis by (intro stop) auto
  next
    case None
    note run' = run [unfolded None]
    show ?thesis
    proof (cases "result s1")
      case None
      with sendBatch_nil_result [OF assms(2) run'] show ?thesis by (intro stop) auto
    next
      case (Some out)
      show ?thesis
      proof (cases "Int64Value (FailedPutCount out) = 0")
        case True
        with sendBatch_delivered [OF assms(2) run' Some] show ?thesis by (intro stop) auto
      next
        case False
        show ?thesis
        proof (cases "unprocessed b 0 (RequestResponses out) []")
          case (Inl p)
          with sendBatch_panics [OF assms(2) run' Some False] show ?thesis by (intro stop) auto
        next
          case (Inr nb)
          from sendBatch_returns_after [OF assms(1), of stream timeout nb s1]
          obtain oc s' zs where
            "sendBatch env stream timeout nb s1 = Some (oc, s')"
            "submissions s' = submissions s1 @ zs"
            "\<forall>z \<in> set zs. Now env (world s1) \<le> round_started z"
            by blast
          with sendBatch_narrows [OF assms(2) run' Some False Inr] ys clk show ?thesis
            by (intro exI [of _ oc] exI [of _ s'] exI [of _ ys] exI [of _ zs]) fastforce
        qed
      qed
    qed
  qed
qed

text \<open>
  After a round that ends with a non-zero count of failed records and a new batch:
  at the deadline \<^verbatim>\<open>sendBatch\<close> returns nil with no further call; before it, and when
  time passes, the next round is made, and all its calls carry the new batch.
\<close>

lemma sendBatch_next_round:
  assumes "clock_advances env"
      and "Now env (world s) < timeout"
      and "retried_submission env stream b s = (None, s1)"
      and "result s1 = Some out"
      and "Int64Value (FailedPutCount out) \<noteq> 0"
      and "unprocessed b 0 (RequestResponses out) [] = Inr nb"
  shows "(timeout \<le> Now env (world s1) \<longrightarrow>
            sendBatch env stream timeout b s = Some (Returned None, s1))
         \<and> (Now env (world s1) < timeout \<longrightarrow>
              (\<exists>oc s' ys zs. sendBatch env stream timeout b s = Some (oc, s')
                 \<and> submissions s' = submissions s1 @ ys @ zs \<and> ys \<noteq> []
                 \<and> (\<forall>y \<in> set ys. submitted y = request stream nb
                        \<and> round_started y = Now env (world s1))
                 \<and> (\<forall>z \<in> set zs. Now env (world s1) < round_started z)))"
proof -
  have eq: "sendBatch env stream timeout b s = sendBatch env stream timeout nb s1"
    using assms(2-6) by (rule sendBatch_narrows)
  show ?thesis
    using sendBatch_expired [of timeout env s1 stream nb]
      sendBatch_first_round [OF assms(1), of s1 timeout stream nb]
    by (simp add: eq)
qed

lemma sendBatch_next_round_records:
  assumes "clock_advances env"
      and "Now env (world s) < timeout"
      and "retried_submission env stream b s = (None, s1)"
      and "result s1 = Some out"
      and "Int64Value (FailedPutCount out) \<noteq> 0"
      and "unprocessed b 0 (RequestResponses out) [] = Inr nb"
  shows "(timeout \<le> Now env (world s1) \<longrightarrow>
            sendBatch env stream timeout b s = Some (Returned None, s1))
         \<and> (Now env (world s1) < timeout \<longrightarrow>
              (\<exists>oc s' ys zs. sendBatch env stream timeout b s = Some (oc, s')
                 \<and> submissions s' = submissions s1 @ ys @ zs \<and> ys \<noteq> []
                 \<and> (\<forall>y \<in> set ys. Records (submitted y) = nb
                        \<and> round_started y = Now env (world s1))
                 \<and> (\<forall>z \<in> set zs. Now env (world s1) < round_started z)))"
proof (intro conjI impI)
  assume "timeout \<le> Now env (world s1)"
  with sendBatch_next_round [OF assms]
  show "sendBatch env stream timeout b s = Some (Returned None, s1)" by simp
next
  assume "Now env (world s1) < timeout"
  with sendBatch_next_round [OF assms] obtain oc s' ys zs where
    *: "sendBatch env stream timeout b s = Some (oc, s')"
       "submissions s' = submissions s1 @ ys @ zs" "ys \<noteq> []"
       "\<forall>y \<in> set ys. submitted y = request stream nb \<and> round_started y = Now env (world s1)"
       "\<forall>z \<in> set zs. Now env (world s1) < round_started z"
    by blast
  from *(4) have "\<forall>y \<in> set ys. Records (submitted y) = nb
                    \<and> round_started y = Now env (world s1)"
    by (simp add: request_def)
  with *(1,2,3,5)
  show "\<exists>oc s' ys zs. sendBatch env stream timeout b s = Some (oc, s')
          \<and> submissions s' = submissions s1 @ ys @ zs \<and> ys \<noteq> []
          \<and> (\<forall>y \<in> set ys. Records (submitted y) = nb
                 \<and> round_started y = Now env (world s1))
          \<and> (\<forall>z \<in> set zs. Now env (world s1) < round_started z)"
    by blast
qed

text \<open>
  Against an endpoint that always reports failed records and marks none, and when time
  passes, \<^verbatim>\<open>sendBatch\<close> makes one call in each round, the first with the batch and all
  later ones with the empty batch, and returns nil once the deadline is reached.
\<close>

lemma empty_rounds_until_deadline:
  assumes "fails_without_codes env" "clock_advances env"
  shows "\<exists>s' xs. sendBatch env stream timeout b s = Some (Returned None, s')
           \<and> timeout \<le> Now env (world s')
           \<and> submissions s' = submissions s @ xs
           \<and> (\<forall>x \<in> set xs. submitted_at x = round_started x \<and> round_started x < timeout)
           \<and> (xs \<noteq> [] \<longrightarrow> Records (submitted (hd xs)) = b)
           \<and> (\<forall>x \<in> set (tl xs). Records (submitted x) = [])"
proof (induction "nat (timeout - Now env (world s))" arbitrary: b s rule: less_induct)
  case less
  show ?case
  proof (cases "Now env (world s) < timeout")
    case False
    then show ?thesis by (simp add: sendBatch_expired)
  next
    case True
    from assms(1) obtain out w' where
      put: "PutRecordBatch env (request stream b) (world s) = ((Some out, None), w')"
      and cnt: "0 < Int64Value (FailedPutCount out)"
      and codes: "\<forall>res \<in> set (RequestResponses out). no_error_code res"
      unfolding fails_without_codes_def by blast
    let ?x = "\<lparr>round_started = Now env (world s), submitted_at = Now env (world s),
               submitted = request stream b\<rparr>"
    let ?s1 = "s\<lparr>result := None, submissions := submissions s @ [?x], world := w',
                 result := Some out\<rparr>"
    have run: "retried_submission env stream b s = (None, ?s1)"
      using Run_first_try [of env stream b "s\<lparr>result := None\<rparr>" out w'] put by simp
    have u: "unprocessed b 0 (RequestResponses out) [] = Inr []"
      using codes by (rule unprocessed_no_codes)
    have step: "sendBatch env stream timeout b s = sendBatch env stream timeout [] ?s1"
      using True run _ _ u by (rule sendBatch_narrows) (use cnt in simp_all)
    have "Now env (world s) < Now env w'"
      using assms(2) put unfolding clock_advances_def
      by (metis snd_conv)
    then have "nat (timeout - Now env (world ?s1)) < nat (timeout - Now env (world s))"
      using True by simp
    from less [OF this, of "[]"] obtain s' xs where
      IH: "sendBatch env stream timeout [] ?s1 = Some (Returned None, s')"
        "timeout \<le> Now env (world s')"
        "submissions s' = submissions ?s1 @ xs"
        "\<forall>x \<in> set xs. submitted_at x = round_started x \<and> round_started x < timeout"
        "xs \<noteq> [] \<longrightarrow> Records (submitted (hd xs)) = []"
        "\<forall>x \<in> set (tl xs). Records (submitted x) = []"
      by blast
    have tl: "\<forall>x \<in> set xs. Records (submitted x) = []"
      using IH(5,6) by (cases xs) auto
    show ?thesis
    proof (intro exI conjI)
      show "sendBatch env stream timeout b s = Some (Returned None, s')"
        using step IH(1) by simp
      show "timeout \<le> Now env (world s')" by (rule IH(2))
      show "submissions s' = submissions s @ (?x # xs)" using IH(3) by simp
      show "\<forall>x \<in> set (?x # xs). submitted_at x = round_started x \<and> round_started x < timeout"
        using IH(4) True by simp
      show "?x # xs \<noteq> [] \<longrightarrow> Records (submitted (hd (?x # xs))) = b"
        by (simp add: request_def)
      show "\<forall>x \<in> set (tl (?x # xs)). Records (submitted x) = []" using tl by simp
    qed
  qed
qed

subsection \<open>The example endpoints\<close>

lemma clock_env_advances:
  "(\<And>inp w. 0 < snd (api inp w)) \<Longrightarrow> clock_advances (clock_env api)"
  by (auto simp: clock_advances_def clock_env_def split: prod.splits) (metis snd_conv)

lemmas demo_defs = clock_env_def start_def accepted_def throttled_def all_accepted_def
  miscounted_def two_throttled_def connection_reset_def stream_missing_def slow_reset_api_def
  missing_stream_api_def throttling_api_def miscounting_api_def resetting_api_def
  demo_batch_def request_def logged_def retried_def throttled_round_def miscounted_round_def
  uncounted_def uncounting_api_def uncounted_round_def resubmitted_def empty_rounds_def
  attempt_def backoff5 Millisecond_def Int64Value_def StringValue_def Let_def

section \<open>Delivery: the claims\<close>




text \<open>
  Claim C5. When the retrier of a round returns an error (the error of a try that the
  classifier does not retry, or of the last try that the retrier allows), \<^verbatim>\<open>sendBatch\<close>
  returns at once with an error that wraps it: the state it ends in is the state in
  which the retrier returned, so no further call is made. \<^verbatim>\<open>sendBatch\<close> has no access
  to the logger, so no record goes back into the pending batch. The examples are an
  error that is not retried, and a connection reset on every try: the first try and the
  five retries of the backoff list.
\<close>

theorem sendBatch_aborts_on_error:
  assumes "Now env (world s) < timeout"
      and "retried_submission env stream b s = (Some err, s1)"
  shows "sendBatch env stream timeout b s = Some (Returned (Some (Errorf_PutRecords err)), s1)"
  using assms by (subst sendBatch.simps) simp

theorem sendBatch_aborts_on_error_witness:
  "sendBatch (clock_env missing_stream_api) ''production--events'' 60000000000 demo_batch (start 0) =
     Some (Returned (Some (PlainError ''PutRecords: ResourceNotFoundException: Firehose not found'')),
       \<lparr>world = 20000000, result = None, submissions = [logged 0 demo_batch]\<rparr>)
   \<and> sendBatch (clock_env resetting_api) ''production--events'' 60000000000 demo_batch (start 0) =
     Some (Returned (Some (PlainError ''PutRecords: RequestError: send request failed'')),
       \<lparr>world = 3220000000, result = None,
        submissions = [retried 0 demo_batch, retried 120000000 demo_batch,
                       retried 340000000 demo_batch, retried 760000000 demo_batch,
                       retried 1580000000 demo_batch, retried 3200000000 demo_batch]\<rparr>)"
proof -
  let ?env = "clock_env missing_stream_api"
  let ?env2 = "clock_env resetting_api"
  have h1: "Now ?env (world (start 0)) < 60000000000" by (simp add: demo_defs)
  have h2: "retried_submission ?env ''production--events'' demo_batch (start 0) =
      (Some stream_missing,
       \<lparr>world = 20000000, result = None, submissions = [logged 0 demo_batch]\<rparr>)"
    by (simp add: Run.simps demo_defs)
  have k1: "Now ?env2 (world (start 0)) < 60000000000" by (simp add: demo_defs)
  have k2: "retried_submission ?env2 ''production--events'' demo_batch (start 0) =
      (Some connection_reset,
       \<lparr>world = 3220000000, result = None,
        submissions = [retried 0 demo_batch, retried 120000000 demo_batch,
                       retried 340000000 demo_batch, retried 760000000 demo_batch,
                       retried 1580000000 demo_batch, retried 3200000000 demo_batch]\<rparr>)"
    by (simp add: Run.simps demo_defs)
  show ?thesis
    using sendBatch_aborts_on_error [OF h1 h2] sendBatch_aborts_on_error [OF k1 k2]
    by (simp add: Errorf_PutRecords_def stream_missing_def connection_reset_def)
qed

text \<open>
  Claim C6, as stated: the deadline is fixed one minute after the batch is detached, no
  round starts at or after it, and once it has elapsed with records outstanding no
  further submission is made. The last part fails: the deadline is tested only between
  rounds, and the retrier inside a round does not look at it. Here the deadline is at
  60 seconds, the first call is made at 0, hangs and ends in a connection reset at 61
  seconds; the retrier sleeps 100 milliseconds and submits the batch again, at 61.1
  seconds.
\<close>

theorem submission_after_deadline_counterexample:
  "sendBatch (clock_env slow_reset_api) ''production--events'' 60000000000 [demo_record] (start 0)
     = Some (Returned None, late_retry)
   \<and> submissions late_retry = [retried 0 [demo_record], retried 61100000000 [demo_record]]
   \<and> \<not> submitted_at (retried 61100000000 [demo_record]) < 60000000000"
  by (simp add: sendBatch.simps Run.simps demo_defs late_retry_def)

text \<open>
  Claim C6, amended. \<^verbatim>\<open>Write\<close> and \<^verbatim>\<open>Close\<close> fix the deadline of the batch they detach
  at one minute after the clock reading they take. When the loop test finds the
  deadline reached, \<^verbatim>\<open>sendBatch\<close> returns nil and makes no call. When time passes,
  \<^verbatim>\<open>sendBatch\<close> does end, and every call it made belongs to a round that started
  strictly before the deadline.
\<close>

theorem sendBatch_deadline:
  "(Write js now al bs = (r, al', Some t) \<longrightarrow> task_timeout t = now + 60000000000)
   \<and> (Close now2 al2 = (e2, al2', Some t2) \<longrightarrow> task_timeout t2 = now2 + 60000000000)
   \<and> (timeout \<le> Now env (world s) \<longrightarrow>
        sendBatch env stream timeout b s = Some (Returned None, s))
   \<and> (clock_advances env \<longrightarrow>
        (\<exists>oc s' xs. sendBatch env stream timeout b s = Some (oc, s')
           \<and> submissions s' = submissions s @ xs
           \<and> (\<forall>x \<in> set xs. round_started x < timeout)))"
proof -
  have 1: "task_timeout t = now + 60000000000" if "Write js now al bs = (r, al', Some t)"
    using that
    by (auto simp: Write_def detach_def Let_def timeoutForSendingBatches_def Minute_def
        split: sum.splits if_splits)
  have 2: "task_timeout t2 = now2 + 60000000000" if "Close now2 al2 = (e2, al2', Some t2)"
    using that
    by (auto simp: Close_def detach_def timeoutForSendingBatches_def Minute_def split: if_splits)
  have 3: "\<exists>oc s' xs. sendBatch env stream timeout b s = Some (oc, s')
           \<and> submissions s' = submissions s @ xs
           \<and> (\<forall>x \<in> set xs. round_started x < timeout)" if "clock_advances env"
    using that by (rule sendBatch_returns)
  from 1 2 3 show ?thesis
    by (simp add: sendBatch_expired)
qed

theorem sendBatch_deadline_witness:
  "Write demo_json 5 (demo_logger 1) demo_input =
     ((8, None), demo_logger 1, Some (demo_task 60000000005))
   \<and> task_timeout (demo_task 60000000005) = 5 + 60000000000
   \<and> Close 9 one_pending = (None, demo_logger 500, Some (demo_task 60000000009))
   \<and> task_timeout (demo_task 60000000009) = 9 + 60000000000
   \<and> 60000000000 \<le> Now (clock_env throttling_api) (world (start 60000000000))
   \<and> sendBatch (clock_env throttling_api) ''production--events'' 60000000000 demo_batch
        (start 60000000000) = Some (Returned None, start 60000000000)
   \<and> clock_advances (clock_env throttling_api)
   \<and> (\<exists>oc s' xs. sendBatch (clock_env throttling_api) ''production--events'' 60000000000
                     demo_batch (start 0) = Some (oc, s')
          \<and> submissions s' = submissions (start 0) @ xs
          \<and> (\<forall>x \<in> set xs. round_started x < 60000000000))"
proof -
  let ?env = "clock_env throttling_api"
  have e: "60000000000 \<le> Now ?env (world (start 60000000000))" by (simp add: demo_defs)
  have a: "clock_advances ?env"
    by (rule clock_env_advances) (simp add: throttling_api_def)
  note inst =
    sendBatch_deadline
      [of demo_json 5 "demo_logger 1" demo_input "(8, None)" "demo_logger 1"
          "demo_task 60000000005" 9 one_pending None "demo_logger 500" "demo_task 60000000009"
          60000000000 ?env "start 60000000000" "''production--events''" demo_batch]
    sendBatch_deadline
      [of demo_json 5 "demo_logger 1" demo_input "(8, None)" "demo_logger 1"
          "demo_task 60000000005" 9 one_pending None "demo_logger 500" "demo_task 60000000009"
          60000000000 ?env "start 0" "''production--events''" demo_batch]
  show ?thesis
    using inst demo_Write_full demo_Close e a by simp
qed

text \<open>
  Claim C10. The loop ends early only on a failed-record count of zero, not on an empty
  batch. When a round ends with a response whose count is positive and whose entries
  all have an empty error code, the rest of the loop is the loop on the empty batch:
  if the deadline is not reached by then, and when time passes, \<^verbatim>\<open>sendBatch\<close> makes
  the next round, and every call of that round submits the empty batch. Against an
  endpoint that always answers so, \<^verbatim>\<open>sendBatch\<close> makes one call in each round, all but
  the first with the empty batch, and returns nil only once the clock has reached the
  deadline. In general, whenever \<^verbatim>\<open>sendBatch\<close> returns nil, the deadline is reached or
  the last response has a count of zero.
\<close>

theorem sendBatch_empty_rounds:
  "(Now env (world s) < timeout \<and> retried_submission env stream b s = (None, s1)
      \<and> result s1 = Some out \<and> 0 < Int64Value (FailedPutCount out)
      \<and> (\<forall>res \<in> set (RequestResponses out). no_error_code res)
     \<longrightarrow> sendBatch env stream timeout b s = sendBatch env stream timeout [] s1)
   \<and> (clock_advances env \<and> Now env (world s) < timeout
      \<and> retried_submission env stream b s = (None, s1)
      \<and> result s1 = Some out \<and> 0 < Int64Value (FailedPutCount out)
      \<and> (\<forall>res \<in> set (RequestResponses out). no_error_code res)
     \<longrightarrow> (timeout \<le> Now env (world s1) \<longrightarrow>
            sendBatch env stream timeout b s = Some (Returned None, s1))
         \<and> (Now env (world s1) < timeout \<longrightarrow>
              (\<exists>oc s' ys zs. sendBatch env stream timeout b s = Some (oc, s')
                 \<and> submissions s' = submissions s1 @ ys @ zs \<and> ys \<noteq> []
                 \<and> (\<forall>y \<in> set ys. Records (submitted y) = []
                        \<and> round_started y = Now env (world s1))
                 \<and> (\<forall>z \<in> set zs. Now env (world s1) < round_started z))))
   \<and> (fails_without_codes env \<and> clock_advances env \<longrightarrow>
        (\<exists>s' xs. sendBatch env stream timeout b s = Some (Returned None, s')
           \<and> timeout \<le> Now env (world s')
           \<and> submissions s' = submissions s @ xs
           \<and> (\<forall>x \<in> set xs. submitted_at x = round_started x \<and> round_started x < timeout)
           \<and> (xs \<noteq> [] \<longrightarrow> Records (submitted (hd xs)) = b)
           \<and> (\<forall>x \<in> set (tl xs). Records (submitted x) = [])))
   \<and> (sendBatch env stream timeout b s = Some (Returned None, s2) \<longrightarrow>
        timeout \<le> Now env (world s2)
        \<or> (\<exists>out. result s2 = Some out \<and> Int64Value (FailedPutCount out) = 0))"
proof (intro conjI)
  show "Now env (world s) < timeout \<and> retried_submission env stream b s = (None, s1)
      \<and> result s1 = Some out \<and> 0 < Int64Value (FailedPutCount out)
      \<and> (\<forall>res \<in> set (RequestResponses out). no_error_code res)
     \<longrightarrow> sendBatch env stream timeout b s = sendBatch env stream timeout [] s1"
  proof
    assume a: "Now env (world s) < timeout \<and> retried_submission env stream b s = (None, s1)
      \<and> result s1 = Some out \<and> 0 < Int64Value (FailedPutCount out)
      \<and> (\<forall>res \<in> set (RequestResponses out). no_error_code res)"
    then have "unprocessed b 0 (RequestResponses out) [] = Inr []"
      by (intro unprocessed_no_codes) simp
    with a show "sendBatch env stream timeout b s = sendBatch env stream timeout [] s1"
      by (intro sendBatch_narrows [where out = out]) simp_all
  qed
next
  show "clock_advances env \<and> Now env (world s) < timeout
      \<and> retried_submission env stream b s = (None, s1)
      \<and> result s1 = Some out \<and> 0 < Int64Value (FailedPutCount out)
      \<and> (\<forall>res \<in> set (RequestResponses out). no_error_code res)
     \<longrightarrow> (timeout \<le> Now env (world s1) \<longrightarrow>
            sendBatch env stream timeout b s = Some (Returned None, s1))
         \<and> (Now env (world s1) < timeout \<longrightarrow>
              (\<exists>oc s' ys zs. sendBatch env stream timeout b s = Some (oc, s')
                 \<and> submissions s' = submissions s1 @ ys @ zs \<and> ys \<noteq> []
                 \<and> (\<forall>y \<in> set ys. Records (submitted y) = []
                        \<and> round_started y = Now env (world s1))
                 \<and> (\<forall>z \<in> set zs. Now env (world s1) < round_started z)))"
  proof
    assume a: "clock_advances env \<and> Now env (world s) < timeout
      \<and> retried_submission env stream b s = (None, s1)
      \<and> result s1 = Some out \<and> 0 < Int64Value (FailedPutCount out)
      \<and> (\<forall>res \<in> set (RequestResponses out). no_error_code res)"
    then have u: "unprocessed b 0 (RequestResponses out) [] = Inr []"
      by (intro unprocessed_no_codes) simp
    from a have c: "Int64Value (FailedPutCount out) \<noteq> 0" by simp
    from a have "clock_advances env" "Now env (world s) < timeout"
      "retried_submission env stream b s = (None, s1)" "result s1 = Some out" by simp_all
    from sendBatch_next_round_records [OF this c u]
    show "(timeout \<le> Now env (world s1) \<longrightarrow>
            sendBatch env stream timeout b s = Some (Returned None, s1))
         \<and> (Now env (world s1) < timeout \<longrightarrow>
              (\<exists>oc s' ys zs. sendBatch env stream timeout b s = Some (oc, s')
                 \<and> submissions s' = submissions s1 @ ys @ zs \<and> ys \<noteq> []
                 \<and> (\<forall>y \<in> set ys. Records (submitted y) = []
                        \<and> round_started y = Now env (world s1))
                 \<and> (\<forall>z \<in> set zs. Now env (world s1) < round_started z)))"
      by simp
  qed
next
  show "fails_without_codes env \<and> clock_advances env \<longrightarrow>
        (\<exists>s' xs. sendBatch env stream timeout b s = Some (Returned None, s')
           \<and> timeout \<le> Now env (world s')
           \<and> submissions s' = submissions s @ xs
           \<and> (\<forall>x \<in> set xs. submitted_at x = round_started x \<and> round_started x < timeout)
           \<and> (xs \<noteq> [] \<longrightarrow> Records (submitted (hd xs)) = b)
           \<and> (\<forall>x \<in> set (tl xs). Records (submitted x) = []))"
    using empty_rounds_until_deadline by blast
next
  show "sendBatch env stream timeout b s = Some (Returned None, s2) \<longrightarrow>
        timeout \<le> Now env (world s2)
        \<or> (\<exists>out. result s2 = Some out \<and> Int64Value (FailedPutCount out) = 0)"
    using sendBatch_nil_return by blast
qed


theorem sendBatch_empty_rounds_witness:
  "fails_without_codes (clock_env miscounting_api) \<and> clock_advances (clock_env miscounting_api)
   \<and> retried_submission (clock_env miscounting_api) ''production--events'' demo_batch (start 0)
       = (None, miscounted_round)
   \<and> Now (clock_env miscounting_api) (world miscounted_round) < 60000000000
   \<and> (\<exists>oc s' ys zs.
         sendBatch (clock_env miscounting_api) ''production--events'' 60000000000 demo_batch (start 0)
           = Some (oc, s')
         \<and> submissions s' = submissions miscounted_round @ ys @ zs \<and> ys \<noteq> []
         \<and> (\<forall>y \<in> set ys. Records (submitted y) = []
                \<and> round_started y = Now (clock_env miscounting_api) (world miscounted_round))
         \<and> (\<forall>z \<in> set zs.
                Now (clock_env miscounting_api) (world miscounted_round) < round_started z))
   \<and> sendBatch (clock_env miscounting_api) ''production--events'' 60000000000 demo_batch (start 0)
       = Some (Returned None, empty_rounds)
   \<and> submissions empty_rounds
       = [logged 0 demo_batch, logged 25000000000 [], logged 50000000000 []]
   \<and> 60000000000 \<le> Now (clock_env miscounting_api) (world empty_rounds)"
proof -
  let ?env = "clock_env miscounting_api"
  have f: "fails_without_codes ?env"
    by (simp add: fails_without_codes_def clock_env_def miscounting_api_def miscounted_def
        Int64Value_def no_error_code_def accepted_def StringValue_def)
  have a: "clock_advances ?env"
    by (rule clock_env_advances) (simp add: miscounting_api_def)
  have run: "retried_submission ?env ''production--events'' demo_batch (start 0)
             = (None, miscounted_round)"
    by (simp add: Run.simps demo_defs)
  have lt: "Now ?env (world miscounted_round) < 60000000000"
    by (simp add: miscounted_round_def clock_env_def)
  have h: "Now ?env (world (start 0)) < 60000000000
      \<and> retried_submission ?env ''production--events'' demo_batch (start 0) = (None, miscounted_round)
      \<and> result miscounted_round = Some (miscounted demo_batch)
      \<and> 0 < Int64Value (FailedPutCount (miscounted demo_batch))
      \<and> (\<forall>res \<in> set (RequestResponses (miscounted demo_batch)). no_error_code res)"
    using run by (simp add: demo_defs no_error_code_def)
  have rest: "sendBatch ?env ''production--events'' 60000000000 [] miscounted_round
              = Some (Returned None, empty_rounds)"
    by (simp add: sendBatch.simps Run.simps demo_defs)
  have subs: "submissions empty_rounds
       = [logged 0 demo_batch, logged 25000000000 [], logged 50000000000 []]"
    by (simp add: empty_rounds_def)
  note inst = sendBatch_empty_rounds
    [of ?env "start 0" 60000000000 "''production--events''" demo_batch miscounted_round
        "miscounted demo_batch" empty_rounds]
  from conjunct1 [OF inst] h
  have step: "sendBatch ?env ''production--events'' 60000000000 demo_batch (start 0) =
        sendBatch ?env ''production--events'' 60000000000 [] miscounted_round" by (rule mp)
  with rest have all: "sendBatch ?env ''production--events'' 60000000000 demo_batch (start 0)
        = Some (Returned None, empty_rounds)" by simp
  from conjunct1 [OF conjunct2 [OF inst]] a h
  have "(60000000000 \<le> Now ?env (world miscounted_round) \<longrightarrow>
            sendBatch ?env ''production--events'' 60000000000 demo_batch (start 0)
              = Some (Returned None, miscounted_round))
         \<and> (Now ?env (world miscounted_round) < 60000000000 \<longrightarrow>
              (\<exists>oc s' ys zs.
                 sendBatch ?env ''production--events'' 60000000000 demo_batch (start 0)
                   = Some (oc, s')
                 \<and> submissions s' = submissions miscounted_round @ ys @ zs \<and> ys \<noteq> []
                 \<and> (\<forall>y \<in> set ys. Records (submitted y) = []
                        \<and> round_started y = Now ?env (world miscounted_round))
                 \<and> (\<forall>z \<in> set zs. Now ?env (world miscounted_round) < round_started z)))"
    by blast
  then have ex: "\<exists>oc s' ys zs.
         sendBatch ?env ''production--events'' 60000000000 demo_batch (start 0) = Some (oc, s')
         \<and> submissions s' = submissions miscounted_round @ ys @ zs \<and> ys \<noteq> []
         \<and> (\<forall>y \<in> set ys. Records (submitted y) = []
                \<and> round_started y = Now ?env (world miscounted_round))
         \<and> (\<forall>z \<in> set zs. Now ?env (world miscounted_round) < round_started z)"
    using lt by blast
  have "60000000000 \<le> Now ?env (world empty_rounds)
        \<or> (\<exists>out. result empty_rounds = Some out \<and> Int64Value (FailedPutCount out) = 0)"
    using conjunct2 [OF conjunct2 [OF conjunct2 [OF inst]]] all by (rule mp)
  then have late: "60000000000 \<le> Now ?env (world empty_rounds)"
    by (simp add: empty_rounds_def miscounted_def Int64Value_def)
  show ?thesis
    using f a run lt ex all subs late by (intro conjI)
qed

end
